theory Spec2Isabelle
  imports Complex_Main
begin

section \<open>The GN&C calculator of \<open>src/03_file_based/gnc.py\<close>\<close>

text \<open>
  The class \<open>GNCCalculator\<close> holds two tables (mass and failure rate, keyed by a stage
  letter and a type label) and two class methods, \<open>calc_mass\<close> and \<open>calc_failure_rate\<close>.
  Python floats are idealised as real numbers throughout: rounding, overflow and underflow
  of IEEE doubles are not part of this model. A raised exception is a value \<open>Inl e\<close>.
\<close>

subsection \<open>Errors and numpy values\<close>

datatype error = KeyError | IndexError | TypeError

text \<open>
  What \<open>np.log10\<close> returns: a finite number, minus infinity (at 0, with a warning only) or
  NaN (below 0, with a warning only).
\<close>

datatype npfloat = Finite real | NegInf | NaN

definition np_log10 :: "real \<Rightarrow> npfloat" where
  "np_log10 x = (if x = 0 then NegInf else if x < 0 then NaN else Finite (log 10 x))"


text \<open>
  A two-dimensional integer array: its shape and its rows. The shape is kept beside the
  rows because an array with no rows still has a number of columns.
\<close>

record ndarray2 =
  shape0 :: nat
  shape1 :: nat
  cells :: "int list list"

definition np_zeros :: "nat \<Rightarrow> nat \<Rightarrow> ndarray2" where
  "np_zeros n m = \<lparr>shape0 = n, shape1 = m, cells = replicate n (replicate m 0)\<rparr>"

text \<open>
  Integer indexing along an axis of size \<open>n\<close>: an index in \<open>[0, n)\<close> is itself, an index in
  \<open>[-n, 0)\<close> counts from the end, anything else raises IndexError.
\<close>

definition np_index :: "nat \<Rightarrow> int \<Rightarrow> nat option" where
  "np_index n i =
     (if 0 \<le> i \<and> i < int n then Some (nat i)
      else if - int n \<le> i \<and> i < 0 then Some (nat (int n + i))
      else None)"

text \<open>Boolean-mask indexing \<open>a[mask]\<close> of a one-dimensional array (or of the rows of a matrix).\<close>

definition mask_select :: "'a list \<Rightarrow> bool list \<Rightarrow> 'a list" where
  "mask_select xs m = map fst (filter snd (zip xs m))"

subsection \<open>The class and its tables\<close>

record gnc_cls =
  mass :: "string \<Rightarrow> string \<rightharpoonup> real"
  failure_rate :: "string \<Rightarrow> string \<rightharpoonup> real"

definition GNCCalculator :: gnc_cls where
  "GNCCalculator = \<lparr>
     mass = (\<lambda>k.
       if k = ''S'' then [''A'' \<mapsto> 3, ''B'' \<mapsto> 6, ''C'' \<mapsto> 9]
       else if k = ''C'' then [''A'' \<mapsto> 3, ''B'' \<mapsto> 5, ''C'' \<mapsto> 10]
       else [''A'' \<mapsto> 3.5, ''B'' \<mapsto> 5.5, ''C'' \<mapsto> 9.5]),
     failure_rate = (\<lambda>k.
       if k = ''S'' then [''A'' \<mapsto> 0.00015, ''B'' \<mapsto> 0.0001, ''C'' \<mapsto> 0.00005]
       else if k = ''C'' then [''A'' \<mapsto> 0.0001, ''B'' \<mapsto> 0.00004, ''C'' \<mapsto> 0.00002]
       else [''A'' \<mapsto> 0.00008, ''B'' \<mapsto> 0.0002, ''C'' \<mapsto> 0.0001])\<rparr>"

text \<open>
  The list comprehension \<open>[table[type_] for type_ in types]\<close>: the first label that is not
  a key raises KeyError.
\<close>

fun lookup_all :: "(string \<rightharpoonup> real) \<Rightarrow> string list \<Rightarrow> error + real list" where
  "lookup_all table [] = Inr []"
| "lookup_all table (ty # types) =
     (case table ty of
        None \<Rightarrow> Inl KeyError
      | Some v \<Rightarrow> (case lookup_all table types of Inl e \<Rightarrow> Inl e | Inr vs \<Rightarrow> Inr (v # vs)))"

subsection \<open>\<open>calc_mass\<close>\<close>

definition calc_mass :: "gnc_cls \<Rightarrow> string list \<Rightarrow> string list \<Rightarrow> string list option \<Rightarrow> error + real" where
  "calc_mass cls sensor_types computer_types actuator_types =
     (case lookup_all (mass cls ''S'') sensor_types of
        Inl e \<Rightarrow> Inl e
      | Inr ms \<Rightarrow>
          (case lookup_all (mass cls ''C'') computer_types of
             Inl e \<Rightarrow> Inl e
           | Inr mc \<Rightarrow>
               (case actuator_types of
                  None \<Rightarrow> Inr (sum_list ms + sum_list mc)
                | Some ats \<Rightarrow>
                    (case lookup_all (mass cls ''A'') ats of
                       Inl e \<Rightarrow> Inl e
                     | Inr ma \<Rightarrow> Inr (sum_list ms + sum_list mc + sum_list ma)))))"

subsection \<open>The connection matrices\<close>

text \<open>
  The loop \<open>for i_src, i_tgt in edges: matrix[i_src, i_tgt] = 1\<close>. An index out of range on
  either axis raises IndexError at that edge.
\<close>

fun set_edges :: "ndarray2 \<Rightarrow> (int \<times> int) list \<Rightarrow> error + ndarray2" where
  "set_edges matrix [] = Inr matrix"
| "set_edges matrix ((i_src, i_tgt) # edges) =
     (case np_index (shape0 matrix) i_src of
        None \<Rightarrow> Inl IndexError
      | Some r \<Rightarrow>
          (case np_index (shape1 matrix) i_tgt of
             None \<Rightarrow> Inl IndexError
           | Some c \<Rightarrow>
               set_edges (matrix\<lparr>cells := (cells matrix)[r := (cells matrix ! r)[c := 1]]\<rparr>) edges))"

text \<open>
  One round of the loop over \<open>obj_conns\<close>; an entry that is \<open>None\<close> (actuators given without
  their connections) cannot be iterated and raises TypeError, after the matrix of zeros
  has been made.
\<close>

definition conn_matrix :: "nat \<Rightarrow> nat \<Rightarrow> (int \<times> int) list option \<Rightarrow> error + ndarray2" where
  "conn_matrix n m edges =
     (case edges of None \<Rightarrow> Inl TypeError | Some es \<Rightarrow> set_edges (np_zeros n m) es)"

fun conn_matrices_of :: "real list list \<Rightarrow> (int \<times> int) list option list \<Rightarrow> error + ndarray2 list" where
  "conn_matrices_of (src # tgt # rest) (edges # obj_conns) =
     (case conn_matrix (length src) (length tgt) edges of
        Inl e \<Rightarrow> Inl e
      | Inr matrix \<Rightarrow>
          (case conn_matrices_of (tgt # rest) obj_conns of
             Inl e \<Rightarrow> Inl e
           | Inr ms \<Rightarrow> Inr (matrix # ms)))"
| "conn_matrices_of _ [] = Inr []"
| "conn_matrices_of _ (edges # obj_conns) = Inl IndexError"

subsection \<open>The enumeration of failure scenarios\<close>

text \<open>
  \<open>itertools.product\<close> over one list of choices per source unit: \<open>[False, True]\<close> for a
  connected unit, \<open>[False]\<close> for one that is not. The last position varies fastest.
\<close>

definition scenarios :: "nat \<Rightarrow> bool list \<Rightarrow> bool list list" where
  "scenarios n src_connected_mask =
     product_lists (map (\<lambda>i_conn. if src_connected_mask ! i_conn then [False, True] else [False]) [0..<n])"

text \<open>The scenarios the loop does not skip: \<open>if i_rates > 0 and not any(ok_sources): continue\<close>.\<close>

definition retained :: "nat \<Rightarrow> bool list list \<Rightarrow> bool list list" where
  "retained i_rates oks = filter (\<lambda>ok_sources. \<not> (i_rates > 0 \<and> \<not> list_ex id ok_sources)) oks"

text \<open>
  The probability of a scenario: the rate of each failed unit, one minus the rate of each
  surviving unit, multiplied over the units of the mask.
\<close>

definition occurrence_prob :: "real list \<Rightarrow> bool list \<Rightarrow> bool list \<Rightarrow> real" where
  "occurrence_prob rates src_connected_mask ok_sources =
     prod_list (mask_select (map2 (\<lambda>r ok. if ok then 1 - r else r) rates ok_sources) src_connected_mask)"

text \<open>
  The targets still connected: column \<open>i_conn_tgt\<close> of the rows of the surviving sources
  has a nonzero entry.
\<close>

definition connected_targets :: "ndarray2 \<Rightarrow> bool list \<Rightarrow> bool list" where
  "connected_targets conn_mat ok_sources =
     map (\<lambda>i_conn_tgt. list_ex (\<lambda>row. row ! i_conn_tgt \<noteq> 0) (mask_select (cells conn_mat) ok_sources))
       [0..<shape1 conn_mat]"

subsection \<open>\<open>_branch_failures\<close>\<close>

text \<open>
  The closure variables \<open>failure_rates\<close> and \<open>conn_matrices\<close> are parameters. The loop
  over the scenarios adds one term per retained scenario to \<open>total_rate\<close>, which starts at
  0; the recursive call is made only when \<open>calc_downstream\<close> holds, so the stage index stays
  below the number of matrices. In the calls that \<open>calc_failure_rate\<close> makes, every index
  into the two lists is in range and the mask has the length of the stage.
\<close>

function branch_failures :: "real list list \<Rightarrow> ndarray2 list \<Rightarrow> nat \<Rightarrow> bool list \<Rightarrow> real" where
  "branch_failures failure_rates conn_matrices i_rates src_connected_mask =
     (let calc_downstream = (i_rates + 1 < length conn_matrices);
          rates = failure_rates ! i_rates;
          tgt_rates = failure_rates ! (i_rates + 1);
          conn_mat = conn_matrices ! i_rates
      in sum_list (map (\<lambda>ok_sources.
           let occ = occurrence_prob rates src_connected_mask ok_sources;
               conn_tgts = connected_targets conn_mat ok_sources;
               tgt_failure_rates = mask_select tgt_rates conn_tgts
           in if length tgt_failure_rates = 0 then occ
              else occ * prod_list tgt_failure_rates
                   + (if calc_downstream
                      then occ * branch_failures failure_rates conn_matrices (i_rates + 1) conn_tgts
                      else 0))
         (retained i_rates (scenarios (length rates) src_connected_mask))))"
  by pat_completeness auto
termination
  by (relation "measure (\<lambda>(fr, cm, i, m). length cm - i)") auto

declare branch_failures.simps [simp del]

subsection \<open>\<open>calc_failure_rate\<close>\<close>

text \<open>
  The rates of the stages and the edge lists, the matrices, then the enumeration from the
  sensors with every sensor connected. \<open>calc_failure_prob\<close> is the value of the local
  \<open>failure_rate\<close> before the logarithm.
\<close>

definition get_failure_rates :: "gnc_cls \<Rightarrow> string list \<Rightarrow> string list \<Rightarrow> string list option \<Rightarrow> error + real list list" where
  "get_failure_rates cls sensor_types computer_types actuator_types =
     (case lookup_all (failure_rate cls ''S'') sensor_types of
        Inl e \<Rightarrow> Inl e
      | Inr rs \<Rightarrow>
          (case lookup_all (failure_rate cls ''C'') computer_types of
             Inl e \<Rightarrow> Inl e
           | Inr rc \<Rightarrow>
               (case actuator_types of
                  None \<Rightarrow> Inr [rs, rc]
                | Some ats \<Rightarrow>
                    (case lookup_all (failure_rate cls ''A'') ats of
                       Inl e \<Rightarrow> Inl e
                     | Inr ra \<Rightarrow> Inr [rs, rc, ra]))))"

definition get_obj_conns :: "(int \<times> int) list \<Rightarrow> string list option \<Rightarrow> (int \<times> int) list option \<Rightarrow> (int \<times> int) list option list" where
  "get_obj_conns conns actuator_types act_conns =
     (case actuator_types of None \<Rightarrow> [Some conns] | Some _ \<Rightarrow> [Some conns, act_conns])"

text \<open>The call \<open>_branch_failures()\<close>: stage 0, with the mask of ones made for \<open>None\<close>.\<close>

definition root_failures :: "real list list \<Rightarrow> ndarray2 list \<Rightarrow> real" where
  "root_failures failure_rates conn_matrices =
     branch_failures failure_rates conn_matrices 0 (replicate (length (failure_rates ! 0)) True)"

definition calc_failure_prob ::
  "gnc_cls \<Rightarrow> string list \<Rightarrow> string list \<Rightarrow> (int \<times> int) list \<Rightarrow> string list option \<Rightarrow> (int \<times> int) list option \<Rightarrow> error + real" where
  "calc_failure_prob cls sensor_types computer_types conns actuator_types act_conns =
     (case get_failure_rates cls sensor_types computer_types actuator_types of
        Inl e \<Rightarrow> Inl e
      | Inr failure_rates \<Rightarrow>
          (case conn_matrices_of failure_rates (get_obj_conns conns actuator_types act_conns) of
             Inl e \<Rightarrow> Inl e
           | Inr conn_matrices \<Rightarrow> Inr (root_failures failure_rates conn_matrices)))"

definition calc_failure_rate ::
  "gnc_cls \<Rightarrow> string list \<Rightarrow> string list \<Rightarrow> (int \<times> int) list \<Rightarrow> string list option \<Rightarrow> (int \<times> int) list option \<Rightarrow> error + npfloat" where
  "calc_failure_rate cls sensor_types computer_types conns actuator_types act_conns =
     (case calc_failure_prob cls sensor_types computer_types conns actuator_types act_conns of
        Inl e \<Rightarrow> Inl e
      | Inr p \<Rightarrow> Inr (np_log10 p))"

text \<open>
  The contribution of one retained scenario to \<open>total_rate\<close>: the body of the loop after the
  \<open>continue\<close> of the guard.
\<close>

definition scenario_term :: "real list list \<Rightarrow> ndarray2 list \<Rightarrow> nat \<Rightarrow> bool list \<Rightarrow> bool list \<Rightarrow> real" where
  "scenario_term failure_rates conn_matrices i_rates src_connected_mask ok_sources =
     (let occ = occurrence_prob (failure_rates ! i_rates) src_connected_mask ok_sources;
          conn_tgts = connected_targets (conn_matrices ! i_rates) ok_sources;
          tgt_failure_rates = mask_select (failure_rates ! (i_rates + 1)) conn_tgts
      in if length tgt_failure_rates = 0 then occ
         else occ * prod_list tgt_failure_rates
              + (if i_rates + 1 < length conn_matrices
                 then occ * branch_failures failure_rates conn_matrices (i_rates + 1) conn_tgts
                 else 0))"

subsection \<open>Auxiliary notions\<close>

text \<open>The entry an edge list leaves at an in-range position.\<close>

definition edge_hits :: "nat \<Rightarrow> nat \<Rightarrow> (int \<times> int) set \<Rightarrow> nat \<Rightarrow> nat \<Rightarrow> bool" where
  "edge_hits n m E r c = (\<exists>(i, j) \<in> E. np_index n i = Some r \<and> np_index m j = Some c)"




definition unit_rates :: "real list \<Rightarrow> bool" where
  "unit_rates rs = list_all (\<lambda>r. 0 \<le> r \<and> r \<le> 1) rs"


section \<open>Basic facts\<close>

lemma branch_failures_unfold:
  "branch_failures fr cm i msk =
     sum_list (map (scenario_term fr cm i msk) (retained i (scenarios (length (fr ! i)) msk)))"
  by (subst branch_failures.simps) (simp only: scenario_term_def [abs_def] Let_def)

lemmas gnc_eval =
  calc_failure_rate_def calc_failure_prob_def get_failure_rates_def get_obj_conns_def
  root_failures_def conn_matrix_def np_zeros_def np_index_def GNCCalculator_def
  branch_failures.simps scenarios_def retained_def occurrence_prob_def
  connected_targets_def mask_select_def Let_def

lemma lookup_all_Inl: "lookup_all table tys = Inl e \<Longrightarrow> e = KeyError"
  by (induction tys arbitrary: e) (auto split: option.splits sum.splits)

lemma lookup_all_unknown:
  "ty \<in> set tys \<Longrightarrow> table ty = None \<Longrightarrow> lookup_all table tys = Inl KeyError"
proof (induction tys)
  case Nil
  then show ?case by simp
next
  case (Cons a tys)
  show ?case
  proof (cases "table a")
    case None
    then show ?thesis by simp
  next
    case (Some v)
    with Cons.prems have "ty \<in> set tys" by auto
    then have "lookup_all table tys = Inl KeyError" using Cons by blast
    with Some show ?thesis by simp
  qed
qed

lemma lookup_all_known:
  "\<forall>ty \<in> set tys. table ty \<noteq> None \<Longrightarrow> lookup_all table tys = Inr (map (\<lambda>ty. the (table ty)) tys)"
  by (induction tys) auto


subsection \<open>Bounds on a logarithm, by repeated squaring\<close>

lemma log10_square_lower:
  fixes l l' e n L :: real
  assumes "log 10 l + e \<le> n * L" and "0 < l'" and "0 < l" and "l' * 10 ^ d \<le> l * l"
  shows "log 10 l' + (2 * e + real d) \<le> (2 * n) * L"
proof -
  have "log 10 (l' * 10 ^ d) \<le> log 10 (l * l)"
    using assms by (subst log_le_cancel_iff) simp_all
  moreover have "log 10 (l' * 10 ^ d) = log 10 l' + real d"
    using assms by (simp add: log_mult log_nat_power)
  moreover have "log 10 (l * l) = 2 * log 10 l"
    using assms by (simp add: log_mult)
  ultimately show ?thesis using assms(1) by simp
qed

lemma log10_square_upper:
  fixes u u' e n L :: real
  assumes "n * L \<le> log 10 u + e" and "0 < u'" and "0 < u" and "u * u \<le> u' * 10 ^ d"
  shows "(2 * n) * L \<le> log 10 u' + (2 * e + real d)"
proof -
  have "log 10 (u * u) \<le> log 10 (u' * 10 ^ d)"
    using assms by (subst log_le_cancel_iff) simp_all
  moreover have "log 10 (u' * 10 ^ d) = log 10 u' + real d"
    using assms by (simp add: log_mult log_nat_power)
  moreover have "log 10 (u * u) = 2 * log 10 u"
    using assms by (simp add: log_mult)
  ultimately show ?thesis using assms(1) by simp
qed

text \<open>Fourteen squarings of 2.49985, rounded down to nine decimals at each step.\<close>

lemma log10_249985_lower: "6519 / 16384 \<le> log 10 (249985 / 10 ^ 5 :: real)"
proof -
  define L :: real where "L = log 10 (249985 / 10 ^ 5)"
  have s0: "log 10 (249985 / 10 ^ 5) + 0 \<le> 1 * L" by (simp add: L_def)
  have s1: "log 10 (6249250022 / 10 ^ 9) + 0 \<le> 2 * L"
    using log10_square_lower [OF s0, where l' = "6249250022 / 10 ^ 9" and d = 0] by simp
  have s2: "log 10 (3905312583 / 10 ^ 9) + 1 \<le> 4 * L"
    using log10_square_lower [OF s1, where l' = "3905312583 / 10 ^ 9" and d = 1] by simp
  have s3: "log 10 (1525146637 / 10 ^ 9) + 3 \<le> 8 * L"
    using log10_square_lower [OF s2, where l' = "1525146637 / 10 ^ 9" and d = 1] by simp
  have s4: "log 10 (2326072264 / 10 ^ 9) + 6 \<le> 16 * L"
    using log10_square_lower [OF s3, where l' = "2326072264 / 10 ^ 9" and d = 0] by simp
  have s5: "log 10 (5410612177 / 10 ^ 9) + 12 \<le> 32 * L"
    using log10_square_lower [OF s4, where l' = "5410612177 / 10 ^ 9" and d = 0] by simp
  have s6: "log 10 (2927472412 / 10 ^ 9) + 25 \<le> 64 * L"
    using log10_square_lower [OF s5, where l' = "2927472412 / 10 ^ 9" and d = 1] by simp
  have s7: "log 10 (8570094723 / 10 ^ 9) + 50 \<le> 128 * L"
    using log10_square_lower [OF s6, where l' = "8570094723 / 10 ^ 9" and d = 0] by simp
  have s8: "log 10 (7344652356 / 10 ^ 9) + 101 \<le> 256 * L"
    using log10_square_lower [OF s7, where l' = "7344652356 / 10 ^ 9" and d = 1] by simp
  have s9: "log 10 (5394391823 / 10 ^ 9) + 203 \<le> 512 * L"
    using log10_square_lower [OF s8, where l' = "5394391823 / 10 ^ 9" and d = 1] by simp
  have s10: "log 10 (2909946314 / 10 ^ 9) + 407 \<le> 1024 * L"
    using log10_square_lower [OF s9, where l' = "2909946314 / 10 ^ 9" and d = 1] by simp
  have s11: "log 10 (8467787550 / 10 ^ 9) + 814 \<le> 2048 * L"
    using log10_square_lower [OF s10, where l' = "8467787550 / 10 ^ 9" and d = 0] by simp
  have s12: "log 10 (7170342599 / 10 ^ 9) + 1629 \<le> 4096 * L"
    using log10_square_lower [OF s11, where l' = "7170342599 / 10 ^ 9" and d = 1] by simp
  have s13: "log 10 (5141381298 / 10 ^ 9) + 3259 \<le> 8192 * L"
    using log10_square_lower [OF s12, where l' = "5141381298 / 10 ^ 9" and d = 1] by simp
  have s14: "log 10 (2643380165 / 10 ^ 9) + 6519 \<le> 16384 * L"
    using log10_square_lower [OF s13, where l' = "2643380165 / 10 ^ 9" and d = 1] by simp
  have fin: "(0::real) \<le> log 10 (2643380165 / 10 ^ 9)" by simp
  have "6519 \<le> 16384 * L" using s14 fin by linarith
  then show ?thesis unfolding L_def by linarith
qed

text \<open>The same squarings, rounded up.\<close>

lemma log10_249985_upper: "log 10 (249985 / 10 ^ 5 :: real) \<le> 6520 / 16384"
proof -
  define L :: real where "L = log 10 (249985 / 10 ^ 5)"
  have s0: "1 * L \<le> log 10 (249985 / 10 ^ 5) + 0" by (simp add: L_def)
  have s1: "2 * L \<le> log 10 (6249250023 / 10 ^ 9) + 0"
    using log10_square_upper [OF s0, where u' = "6249250023 / 10 ^ 9" and d = 0] by simp
  have s2: "4 * L \<le> log 10 (3905312585 / 10 ^ 9) + 1"
    using log10_square_upper [OF s1, where u' = "3905312585 / 10 ^ 9" and d = 1] by simp
  have s3: "8 * L \<le> log 10 (1525146639 / 10 ^ 9) + 3"
    using log10_square_upper [OF s2, where u' = "1525146639 / 10 ^ 9" and d = 1] by simp
  have s4: "16 * L \<le> log 10 (2326072271 / 10 ^ 9) + 6"
    using log10_square_upper [OF s3, where u' = "2326072271 / 10 ^ 9" and d = 0] by simp
  have s5: "32 * L \<le> log 10 (5410612210 / 10 ^ 9) + 12"
    using log10_square_upper [OF s4, where u' = "5410612210 / 10 ^ 9" and d = 0] by simp
  have s6: "64 * L \<le> log 10 (2927472449 / 10 ^ 9) + 25"
    using log10_square_upper [OF s5, where u' = "2927472449 / 10 ^ 9" and d = 1] by simp
  have s7: "128 * L \<le> log 10 (8570094940 / 10 ^ 9) + 50"
    using log10_square_upper [OF s6, where u' = "8570094940 / 10 ^ 9" and d = 0] by simp
  have s8: "256 * L \<le> log 10 (7344652729 / 10 ^ 9) + 101"
    using log10_square_upper [OF s7, where u' = "7344652729 / 10 ^ 9" and d = 1] by simp
  have s9: "512 * L \<le> log 10 (5394392371 / 10 ^ 9) + 203"
    using log10_square_upper [OF s8, where u' = "5394392371 / 10 ^ 9" and d = 1] by simp
  have s10: "1024 * L \<le> log 10 (2909946906 / 10 ^ 9) + 407"
    using log10_square_upper [OF s9, where u' = "2909946906 / 10 ^ 9" and d = 1] by simp
  have s11: "2048 * L \<le> log 10 (8467790996 / 10 ^ 9) + 814"
    using log10_square_upper [OF s10, where u' = "8467790996 / 10 ^ 9" and d = 0] by simp
  have s12: "4096 * L \<le> log 10 (7170348436 / 10 ^ 9) + 1629"
    using log10_square_upper [OF s11, where u' = "7170348436 / 10 ^ 9" and d = 1] by simp
  have s13: "8192 * L \<le> log 10 (5141389670 / 10 ^ 9) + 3259"
    using log10_square_upper [OF s12, where u' = "5141389670 / 10 ^ 9" and d = 1] by simp
  have s14: "16384 * L \<le> log 10 (2643388774 / 10 ^ 9) + 6519"
    using log10_square_upper [OF s13, where u' = "2643388774 / 10 ^ 9" and d = 1] by simp
  have "log 10 (2643388774 / 10 ^ 9 :: real) \<le> log 10 10" by (subst log_le_cancel_iff) simp_all
  then have fin: "log 10 (2643388774 / 10 ^ 9 :: real) \<le> 1" by simp
  have "16384 * L \<le> 6520" using s14 fin by linarith
  then show ?thesis unfolding L_def by linarith
qed

lemma log10_failure_value: "\<bar>log 10 (249985 / 10 ^ 9 :: real) + 36021 / 10 ^ 4\<bar> < 5 / 10 ^ 5"
proof -
  define y :: real where "y = 249985 / 10 ^ 5"
  have a: "log 10 (y / 10 ^ 4) = log 10 y - log 10 (10 ^ 4)"
    by (rule log_divide_pos) (simp_all add: y_def)
  have b: "log 10 ((10::real) ^ 4) = 4"
    by (simp only: log_nat_power [of 10 10 4]) simp
  have c: "(249985 / 10 ^ 9 :: real) = y / 10 ^ 4"
    by (simp add: y_def)
  have eq: "log 10 (249985 / 10 ^ 9 :: real) = log 10 y - 4"
    by (simp only: c a b)
  have "6519 / 16384 \<le> log 10 y" and "log 10 y \<le> 6520 / 16384"
    unfolding y_def by (rule log10_249985_lower, rule log10_249985_upper)
  then have "- (5 / 10 ^ 5) < log 10 y - 4 + 36021 / 10 ^ 4" and "log 10 y - 4 + 36021 / 10 ^ 4 < 5 / 10 ^ 5"
    by simp_all
  then show ?thesis unfolding eq abs_less_iff by simp
qed

subsection \<open>Building the matrices\<close>

lemma np_index_bound: "np_index n i = Some r \<Longrightarrow> r < n"
  by (auto simp: np_index_def split: if_splits)



lemma set_edges_bad:
  "(i, j) \<in> set es \<Longrightarrow> np_index (shape0 M) i = None \<or> np_index (shape1 M) j = None
     \<Longrightarrow> set_edges M es = Inl IndexError"
proof (induction M es rule: set_edges.induct)
  case (1 matrix)
  then show ?case by simp
next
  case (2 matrix i_src i_tgt edges)
  show ?case
  proof (cases "np_index (shape0 matrix) i_src")
    case None
    then show ?thesis by simp
  next
    case r: (Some r)
    show ?thesis
    proof (cases "np_index (shape1 matrix) i_tgt")
      case None
      with r show ?thesis by simp
    next
      case c: (Some c)
      from r c "2.prems" have "(i, j) \<in> set edges" by auto
      with "2.IH" [OF r c] "2.prems"(2) r c show ?thesis by simp
    qed
  qed
qed

lemma set_edges_ok:
  assumes "\<forall>(i, j) \<in> set es. np_index (shape0 M) i \<noteq> None \<and> np_index (shape1 M) j \<noteq> None"
  shows "\<exists>M'. set_edges M es = Inr M' \<and> shape0 M' = shape0 M \<and> shape1 M' = shape1 M
           \<and> length (cells M') = length (cells M)
           \<and> (\<forall>r < length (cells M). length (cells M' ! r) = length (cells M ! r)
                \<and> (\<forall>c < length (cells M ! r). cells M' ! r ! c =
                      (if edge_hits (shape0 M) (shape1 M) (set es) r c then 1 else cells M ! r ! c)))"
  using assms
proof (induction M es rule: set_edges.induct)
  case (1 matrix)
  then show ?case by (simp add: edge_hits_def)
next
  case (2 matrix i_src i_tgt edges)
  from "2.prems" obtain r c where r: "np_index (shape0 matrix) i_src = Some r"
    and c: "np_index (shape1 matrix) i_tgt = Some c" by auto
  define M1 where "M1 = matrix\<lparr>cells := (cells matrix)[r := (cells matrix ! r)[c := 1]]\<rparr>"
  have M1: "shape0 M1 = shape0 matrix" "shape1 M1 = shape1 matrix"
    "length (cells M1) = length (cells matrix)"
    by (simp_all add: M1_def)
  have M1_len: "\<And>r'. r' < length (cells matrix) \<Longrightarrow> length (cells M1 ! r') = length (cells matrix ! r')"
    by (case_tac "r' = r") (simp_all add: M1_def)
  have M1_nth: "\<And>r' c'. r' < length (cells matrix) \<Longrightarrow> c' < length (cells matrix ! r') \<Longrightarrow>
      cells M1 ! r' ! c' = (if r' = r \<and> c' = c then 1 else cells matrix ! r' ! c')"
    by (case_tac "r' = r"; case_tac "c' = c") (simp_all add: M1_def)
  have pre: "\<forall>(i, j) \<in> set edges. np_index (shape0 M1) i \<noteq> None \<and> np_index (shape1 M1) j \<noteq> None"
    using "2.prems" M1 by auto
  from "2.IH" [OF r c, folded M1_def, OF pre] obtain M' where M': "set_edges M1 edges = Inr M'"
    "shape0 M' = shape0 matrix" "shape1 M' = shape1 matrix"
    "length (cells M') = length (cells matrix)"
    and cellsM': "\<And>r'. r' < length (cells matrix) \<Longrightarrow> length (cells M' ! r') = length (cells M1 ! r')"
    and cellsM'': "\<And>r' c'. r' < length (cells matrix) \<Longrightarrow> c' < length (cells M1 ! r') \<Longrightarrow>
           cells M' ! r' ! c' =
                 (if edge_hits (shape0 matrix) (shape1 matrix) (set edges) r' c' then 1 else cells M1 ! r' ! c')"
    unfolding M1 by blast
  have hits: "\<And>r' c'. edge_hits (shape0 matrix) (shape1 matrix) (set ((i_src, i_tgt) # edges)) r' c'
      \<longleftrightarrow> (r' = r \<and> c' = c) \<or> edge_hits (shape0 matrix) (shape1 matrix) (set edges) r' c'"
    using r c by (auto simp: edge_hits_def)
  have "set_edges matrix ((i_src, i_tgt) # edges) = Inr M'"
    using r c M'(1) by (simp add: M1_def)
  moreover have "\<forall>r' < length (cells matrix). length (cells M' ! r') = length (cells matrix ! r')
        \<and> (\<forall>c' < length (cells matrix ! r'). cells M' ! r' ! c' =
              (if edge_hits (shape0 matrix) (shape1 matrix) (set ((i_src, i_tgt) # edges)) r' c' then 1
               else cells matrix ! r' ! c'))"
  proof (intro allI impI conjI)
    fix r' assume r': "r' < length (cells matrix)"
    show "length (cells M' ! r') = length (cells matrix ! r')"
      using cellsM' [OF r'] M1_len [OF r'] by simp
  next
    fix r' c' assume r': "r' < length (cells matrix)" and c': "c' < length (cells matrix ! r')"
    have "c' < length (cells M1 ! r')" using c' M1_len [OF r'] by simp
    note A = cellsM'' [OF r' this] and B = M1_nth [OF r' c']
    show "cells M' ! r' ! c' =
              (if edge_hits (shape0 matrix) (shape1 matrix) (set ((i_src, i_tgt) # edges)) r' c' then 1
               else cells matrix ! r' ! c')"
      unfolding hits A B by auto
  qed
  ultimately show ?case using M'(2-4) by blast
qed

lemma set_edges_set_eq:
  assumes "set es = set es'"
  shows "set_edges M es = set_edges M es'"
proof (cases "\<forall>(i, j) \<in> set es. np_index (shape0 M) i \<noteq> None \<and> np_index (shape1 M) j \<noteq> None")
  case False
  then obtain i j where ij: "(i, j) \<in> set es" "np_index (shape0 M) i = None \<or> np_index (shape1 M) j = None"
    by (auto simp: case_prod_beta)
  then have "set_edges M es = Inl IndexError" by (rule set_edges_bad)
  moreover from ij assms have "set_edges M es' = Inl IndexError" by (auto intro: set_edges_bad)
  ultimately show ?thesis by simp
next
  case True
  from set_edges_ok [OF True] obtain M1 where M1: "set_edges M es = Inr M1"
    "shape0 M1 = shape0 M" "shape1 M1 = shape1 M" "length (cells M1) = length (cells M)"
    and c1: "\<forall>r < length (cells M). length (cells M1 ! r) = length (cells M ! r)
                \<and> (\<forall>c < length (cells M ! r). cells M1 ! r ! c =
                      (if edge_hits (shape0 M) (shape1 M) (set es) r c then 1 else cells M ! r ! c))"
    by blast
  from True assms have True': "\<forall>(i, j) \<in> set es'. np_index (shape0 M) i \<noteq> None \<and> np_index (shape1 M) j \<noteq> None"
    by simp
  from set_edges_ok [OF True'] obtain M2 where M2: "set_edges M es' = Inr M2"
    "shape0 M2 = shape0 M" "shape1 M2 = shape1 M" "length (cells M2) = length (cells M)"
    and c2: "\<forall>r < length (cells M). length (cells M2 ! r) = length (cells M ! r)
                \<and> (\<forall>c < length (cells M ! r). cells M2 ! r ! c =
                      (if edge_hits (shape0 M) (shape1 M) (set es') r c then 1 else cells M ! r ! c))"
    by blast
  have "cells M1 = cells M2"
  proof (rule nth_equalityI)
    show "length (cells M1) = length (cells M2)" using M1 M2 by simp
  next
    fix r assume "r < length (cells M1)"
    then have r: "r < length (cells M)" using M1 by simp
    show "cells M1 ! r = cells M2 ! r"
    proof (rule nth_equalityI)
      show "length (cells M1 ! r) = length (cells M2 ! r)" using c1 c2 r by simp
    next
      fix c assume "c < length (cells M1 ! r)"
      then have "c < length (cells M ! r)" using c1 r by simp
      then show "cells M1 ! r ! c = cells M2 ! r ! c" using c1 c2 r assms by simp
    qed
  qed
  with M1 M2 have "M1 = M2" by (cases M1, cases M2) simp
  with M1 M2 show ?thesis by simp
qed

lemma conn_matrix_set_eq:
  "rel_option (\<lambda>a b. set a = set b) e e' \<Longrightarrow> conn_matrix n m e = conn_matrix n m e'"
  by (cases e; cases e') (auto simp: conn_matrix_def intro: set_edges_set_eq)

lemma conn_matrices_of_set_eq:
  "list_all2 (rel_option (\<lambda>a b. set a = set b)) oc oc' \<Longrightarrow> conn_matrices_of fr oc = conn_matrices_of fr oc'"
proof (induction fr oc arbitrary: oc' rule: conn_matrices_of.induct)
  case (1 src tgt rest edges obj_conns)
  from "1.prems" obtain e' ocs' where oc': "oc' = e' # ocs'"
    and e: "rel_option (\<lambda>a b. set a = set b) edges e'"
    and r: "list_all2 (rel_option (\<lambda>a b. set a = set b)) obj_conns ocs'"
    by (auto simp: list_all2_Cons1)
  have m: "conn_matrix (length src) (length tgt) edges = conn_matrix (length src) (length tgt) e'"
    using e by (rule conn_matrix_set_eq)
  show ?case
  proof (cases "conn_matrix (length src) (length tgt) edges")
    case (Inl a)
    show ?thesis unfolding oc' conn_matrices_of.simps m [symmetric] Inl by simp
  next
    case (Inr b)
    show ?thesis unfolding oc' conn_matrices_of.simps m [symmetric] Inr "1.IH" [OF Inr r] by simp
  qed
qed (auto simp: list_all2_Cons1)



subsection \<open>Masks and scenarios\<close>

lemma mask_select_Nil [simp]: "mask_select [] m = []" "mask_select xs [] = []"
  by (simp_all add: mask_select_def)

lemma mask_select_Cons [simp]:
  "mask_select (x # xs) (b # bs) = (if b then x # mask_select xs bs else mask_select xs bs)"
  by (simp add: mask_select_def)

lemma mask_select_all_False: "mask_select xs (replicate n False) = []"
  by (induction xs arbitrary: n) (simp, case_tac n, simp_all)

lemma set_mask_select:
  "set (mask_select xs m) = {xs ! i | i. i < length xs \<and> i < length m \<and> m ! i}"
proof (induction xs arbitrary: m)
  case Nil
  then show ?case by simp
next
  case (Cons x xs)
  show ?case
  proof (cases m)
    case Nil
    then show ?thesis by simp
  next
    case (Cons b bs)
    have "{(x # xs) ! i | i. i < length (x # xs) \<and> i < length (b # bs) \<and> (b # bs) ! i}
        = (if b then {x} else {}) \<union> {xs ! i | i. i < length xs \<and> i < length bs \<and> bs ! i}"
      (is "?L = ?R")
    proof (intro equalityI subsetI)
      fix y assume "y \<in> ?L"
      then obtain i where i: "y = (x # xs) ! i" "i < length (x # xs)" "i < length (b # bs)" "(b # bs) ! i"
        by blast
      then show "y \<in> ?R" by (cases i) auto
    next
      fix y assume "y \<in> ?R"
      then consider "b" "y = x" | i where "y = xs ! i" "i < length xs" "i < length bs" "bs ! i"
        by (auto split: if_splits)
      then show "y \<in> ?L"
      proof cases
        case 1
        then have "y = (x # xs) ! 0 \<and> 0 < length (x # xs) \<and> 0 < length (b # bs) \<and> (b # bs) ! 0" by simp
        then show ?thesis by blast
      next
        case 2
        then have "y = (x # xs) ! Suc i \<and> Suc i < length (x # xs) \<and> Suc i < length (b # bs) \<and> (b # bs) ! Suc i"
          by simp
        then show ?thesis by blast
      qed
    qed
    with Cons.IH [of bs] Cons show ?thesis by auto
  qed
qed

lemma flip_all_False: "map2 (\<lambda>r ok. if ok then 1 - r else r) rs (replicate (length rs) False) = rs"
  by (induction rs) simp_all

lemma occurrence_prob_all_False:
  "occurrence_prob rs msk (replicate (length rs) False) = prod_list (mask_select rs msk)"
  by (simp add: occurrence_prob_def flip_all_False)

lemma connected_targets_all_False:
  "connected_targets M (replicate n False) = replicate (shape1 M) False"
  by (simp add: connected_targets_def mask_select_all_False map_replicate_const)

lemma length_connected_targets [simp]: "length (connected_targets M ok) = shape1 M"
  by (simp add: connected_targets_def)

lemma scenario_term_all_False:
  "scenario_term fr cm t msk (replicate (length (fr ! t)) False) = prod_list (mask_select (fr ! t) msk)"
  by (simp add: scenario_term_def connected_targets_all_False mask_select_all_False occurrence_prob_all_False)

lemma product_lists_False_first:
  "\<forall>c \<in> set xss. \<exists>ys. c = False # ys \<Longrightarrow> \<exists>rest. product_lists xss = replicate (length xss) False # rest"
proof (induction xss)
  case Nil
  then show ?case by simp
next
  case (Cons c xss)
  then obtain ys rest where "c = False # ys" "product_lists xss = replicate (length xss) False # rest"
    by auto
  then show ?case by simp
qed

lemma scenarios_first: "scenarios n msk = replicate n False # tl (scenarios n msk)"
proof -
  have "\<exists>rest. scenarios n msk = replicate (length (map (\<lambda>i_conn. if msk ! i_conn then [False, True] else [False]) [0..<n])) False # rest"
    unfolding scenarios_def by (rule product_lists_False_first) auto
  then show ?thesis by auto
qed

lemma scenarios_distinct: "distinct (scenarios n msk)"
  unfolding scenarios_def by (rule distinct_product_lists) auto

lemma scenarios_length: "ok \<in> set (scenarios n msk) \<Longrightarrow> length ok = n"
  unfolding scenarios_def by (drule in_set_product_lists_length) simp

lemma all_False_not_in_tl: "replicate n False \<notin> set (tl (scenarios n msk))"
proof -
  have "distinct (replicate n False # tl (scenarios n msk))"
    using scenarios_distinct [of n msk] scenarios_first [of n msk] by simp
  then show ?thesis by simp
qed

lemma some_survivor: "length ok = n \<Longrightarrow> ok \<noteq> replicate n False \<Longrightarrow> list_ex id ok"
proof (rule ccontr)
  assume len: "length ok = n" and ne: "ok \<noteq> replicate n False" and "\<not> list_ex id ok"
  then have "\<forall>x \<in> set ok. x = False" by (auto simp: list_ex_iff)
  then have "ok = replicate (length ok) False" by (simp add: replicate_length_same)
  with len ne show False by simp
qed

lemma retained_root: "retained 0 oks = oks"
  by (simp add: retained_def)

lemma retained_inner: "retained (Suc t) (scenarios n msk) = tl (scenarios n msk)"
proof -
  have all: "\<forall>ok \<in> set (tl (scenarios n msk)). list_ex id ok"
  proof
    fix ok assume ok: "ok \<in> set (tl (scenarios n msk))"
    then have "ok \<in> set (scenarios n msk)" by (metis list.set_sel(2) scenarios_first list.discI)
    then have "length ok = n" by (rule scenarios_length)
    moreover have "ok \<noteq> replicate n False" using ok all_False_not_in_tl by metis
    ultimately show "list_ex id ok" by (rule some_survivor)
  qed
  have "retained (Suc t) (scenarios n msk) = retained (Suc t) (replicate n False # tl (scenarios n msk))"
    using scenarios_first [of n msk] by simp
  also have "\<dots> = filter (list_ex id) (tl (scenarios n msk))"
    by (simp add: retained_def list_ex_iff cong: filter_cong)
  also have "\<dots> = tl (scenarios n msk)"
    using all by (simp add: filter_id_conv)
  finally show ?thesis .
qed

lemma connected_targets_none:
  assumes "\<forall>i j. i < length ok \<and> i < length (cells M) \<and> j < shape1 M \<and> ok ! i \<longrightarrow> cells M ! i ! j = 0"
  shows "connected_targets M ok = replicate (shape1 M) False"
proof -
  have "\<And>j. j < shape1 M \<Longrightarrow> \<not> list_ex (\<lambda>row. row ! j \<noteq> 0) (mask_select (cells M) ok)"
    using assms by (auto simp: list_ex_iff set_mask_select)
  then show ?thesis
    by (auto simp: connected_targets_def intro!: nth_equalityI)
qed

subsection \<open>Weighted sums over scenarios\<close>

lemma unit_rates_Cons [simp]: "unit_rates (r # rs) \<longleftrightarrow> 0 \<le> r \<and> r \<le> 1 \<and> unit_rates rs"
  by (simp add: unit_rates_def)

lemma unit_rates_Nil [simp]: "unit_rates []"
  by (simp add: unit_rates_def)














subsection \<open>The failure probability from a stage on\<close>




















subsection \<open>The enumeration computes the failure probability\<close>


















section \<open>Claims\<close>

subsection \<open>Unknown type labels\<close>

text \<open>
  C8: with the tables of \<open>GNCCalculator\<close>, whenever some sensor, computer or (given) actuator
  label is not one of A, B, C, both \<open>calc_mass\<close> and \<open>calc_failure_rate\<close> raise KeyError,
  whatever the edges are; no value is returned.
\<close>

theorem unknown_type_fails:
  assumes "\<exists>ty \<in> set sensor_types \<union> set computer_types \<union> (case actuator_types of None \<Rightarrow> {} | Some ats \<Rightarrow> set ats).
             ty \<notin> {''A'', ''B'', ''C''}"
  shows "calc_mass GNCCalculator sensor_types computer_types actuator_types = Inl KeyError
       \<and> calc_failure_rate GNCCalculator sensor_types computer_types conns actuator_types act_conns = Inl KeyError"
proof -
  have none_m: "\<And>k ty. ty \<notin> {''A'', ''B'', ''C''} \<Longrightarrow> mass GNCCalculator k ty = None"
    by (simp add: GNCCalculator_def)
  have none_f: "\<And>k ty. ty \<notin> {''A'', ''B'', ''C''} \<Longrightarrow> failure_rate GNCCalculator k ty = None"
    by (simp add: GNCCalculator_def)
  from assms obtain ty where ty: "ty \<notin> {''A'', ''B'', ''C''}"
    and mem: "ty \<in> set sensor_types \<or> ty \<in> set computer_types \<or> (\<exists>ats. actuator_types = Some ats \<and> ty \<in> set ats)"
    by (auto split: option.splits)
  have lm: "\<And>k tys. ty \<in> set tys \<Longrightarrow> lookup_all (mass GNCCalculator k) tys = Inl KeyError"
    using none_m [OF ty] by (auto intro: lookup_all_unknown)
  have lf: "\<And>k tys. ty \<in> set tys \<Longrightarrow> lookup_all (failure_rate GNCCalculator k) tys = Inl KeyError"
    using none_f [OF ty] by (auto intro: lookup_all_unknown)
  have m: "calc_mass GNCCalculator sensor_types computer_types actuator_types = Inl KeyError"
    using mem lm
    by (auto simp: calc_mass_def split: sum.splits option.splits dest: lookup_all_Inl)
  have f: "get_failure_rates GNCCalculator sensor_types computer_types actuator_types = Inl KeyError"
    using mem lf
    by (auto simp: get_failure_rates_def split: sum.splits option.splits dest: lookup_all_Inl)
  show ?thesis using m f by (simp add: calc_failure_rate_def calc_failure_prob_def)
qed

theorem unknown_type_fails_witness:
  "calc_mass GNCCalculator [''A''] [''B'', ''D''] None = Inl KeyError
   \<and> calc_failure_rate GNCCalculator [''A''] [''B'', ''D''] [(0, 0)] None None = Inl KeyError"
  using unknown_type_fails [of "[''A'']" "[''B'', ''D'']" None "[(0, 0)]" None] by simp

subsection \<open>The two-stage concrete case\<close>

text \<open>
  C2: one sensor of type A (rate 0.00015), one computer of type A (rate 0.0001), the single
  edge (0, 0) and no actuators: the failure probability is
  0.00015 + 0.99985 * 0.0001 = 0.000249985 and \<open>calc_failure_rate\<close> returns its logarithm
  to base 10, which is -3.6021 to four decimals.
\<close>

theorem two_stage_concrete_case:
  "calc_failure_prob GNCCalculator [''A''] [''A''] [(0, 0)] None None = Inr (0.00015 + 0.99985 * 0.0001)
   \<and> (0.00015 + 0.99985 * 0.0001 :: real) = 0.000249985
   \<and> calc_failure_rate GNCCalculator [''A''] [''A''] [(0, 0)] None None = Inr (Finite (log 10 0.000249985))
   \<and> \<bar>log 10 (0.000249985 :: real) + 3.6021\<bar> < 0.00005"
proof -
  have p: "calc_failure_prob GNCCalculator [''A''] [''A''] [(0, 0)] None None = Inr (249985 / 10 ^ 9)"
    by (simp add: gnc_eval)
  have r: "calc_failure_rate GNCCalculator [''A''] [''A''] [(0, 0)] None None = Inr (Finite (log 10 (249985 / 10 ^ 9)))"
    unfolding calc_failure_rate_def p by (simp add: np_log10_def)
  have n: "(0.00015 + 0.99985 * 0.0001 :: real) = 0.000249985" by simp
  show ?thesis
    unfolding n using p r log10_failure_value by (intro conjI) (rule refl | assumption)+
qed

subsection \<open>The three-stage chain\<close>

text \<open>
  C3: for one sensor, one computer and one actuator with rates s, c, a and the edges (0, 0)
  and (0, 0), the matrices are the two 1 by 1 matrices of ones and the enumeration from the
  root gives s + (1 - s) c + (1 - s) (1 - c) a: the two-stage value s + (1 - s) c with one
  more layer. The call at the computer stage returns (1 - c) a: there the guard drops exactly
  the scenario [False] of the two enumerated scenarios, whose weight c the root call has
  already added as the product of the target rates.
\<close>

theorem three_stage_chain:
  "conn_matrices_of [[s], [c], [a]] [Some [(0, 0)], Some [(0, 0)]]
     = Inr [\<lparr>shape0 = 1, shape1 = 1, cells = [[1]]\<rparr>, \<lparr>shape0 = 1, shape1 = 1, cells = [[1]]\<rparr>]
   \<and> root_failures [[s], [c], [a]]
       [\<lparr>shape0 = 1, shape1 = 1, cells = [[1]]\<rparr>, \<lparr>shape0 = 1, shape1 = 1, cells = [[1]]\<rparr>]
     = s + (1 - s) * c + (1 - s) * (1 - c) * a
   \<and> branch_failures [[s], [c], [a]]
       [\<lparr>shape0 = 1, shape1 = 1, cells = [[1]]\<rparr>, \<lparr>shape0 = 1, shape1 = 1, cells = [[1]]\<rparr>] 1 [True]
     = (1 - c) * a
   \<and> root_failures [[s], [c]] [\<lparr>shape0 = 1, shape1 = 1, cells = [[1]]\<rparr>] = s + (1 - s) * c
   \<and> scenarios 1 [True] = [[False], [True]]
   \<and> retained 0 (scenarios 1 [True]) = [[False], [True]]
   \<and> retained 1 (scenarios 1 [True]) = [[True]]"
  by (simp add: gnc_eval algebra_simps)

subsection \<open>Edge lists as sets\<close>

text \<open>
  C10: two edge lists with the same set of (source, target) pairs give the same result of
  \<open>calc_failure_rate\<close>, be it a value or an exception; this covers permuting a list and
  repeating an edge. The same holds for the actuator edges.
\<close>

theorem edges_as_set:
  assumes "set conns = set conns'" and "rel_option (\<lambda>a b. set a = set b) act_conns act_conns'"
  shows "calc_failure_rate cls sensor_types computer_types conns actuator_types act_conns
       = calc_failure_rate cls sensor_types computer_types conns' actuator_types act_conns'"
proof -
  have "list_all2 (rel_option (\<lambda>a b. set a = set b))
          (get_obj_conns conns actuator_types act_conns) (get_obj_conns conns' actuator_types act_conns')"
    using assms by (simp add: get_obj_conns_def split: option.splits)
  then have eq: "\<And>fr. conn_matrices_of fr (get_obj_conns conns actuator_types act_conns)
                 = conn_matrices_of fr (get_obj_conns conns' actuator_types act_conns')"
    by (rule conn_matrices_of_set_eq)
  show ?thesis unfolding calc_failure_rate_def calc_failure_prob_def eq ..
qed

theorem edges_as_set_witness:
  "set [(0, 0), (0, 1)] = set [(0, 1), (0, 0), (0 :: int, 1 :: int)]
   \<and> calc_failure_rate GNCCalculator [''A''] [''A'', ''B''] [(0, 0), (0, 1)] None None
     = calc_failure_rate GNCCalculator [''A''] [''A'', ''B''] [(0, 1), (0, 0), (0, 1)] None None"
proof -
  have s: "set [(0, 0), (0, 1)] = set [(0, 1), (0, 0), (0 :: int, 1 :: int)]" by auto
  show ?thesis
    using s edges_as_set [OF s, of None None GNCCalculator "[''A'']" "[''A'', ''B'']" None] by simp
qed

subsection \<open>Target indices out of range\<close>




subsection \<open>A failure probability of zero\<close>

text \<open>
  C6, as the claim states it, fails: for a class whose rate table gives type A the rate 0,
  one sensor and one computer joined by an edge have failure probability 0, and
  \<open>calc_failure_rate\<close> returns minus infinity, not an exception.
\<close>

theorem zero_probability_counterexample:
  "calc_failure_prob (GNCCalculator\<lparr>failure_rate := \<lambda>k. [''A'' \<mapsto> 0]\<rparr>) [''A''] [''A''] [(0, 0)] None None = Inr 0
   \<and> calc_failure_rate (GNCCalculator\<lparr>failure_rate := \<lambda>k. [''A'' \<mapsto> 0]\<rparr>) [''A''] [''A''] [(0, 0)] None None = Inr NegInf"
  by (simp add: gnc_eval np_log10_def)

text \<open>
  C6, amended: whenever the enumeration returns a probability, \<open>calc_failure_rate\<close> raises
  nothing and returns \<open>np.log10\<close> of it; for the probability 0 that is minus infinity.
\<close>

theorem zero_probability_gives_neg_inf:
  assumes "calc_failure_prob cls sensor_types computer_types conns actuator_types act_conns = Inr p"
  shows "calc_failure_rate cls sensor_types computer_types conns actuator_types act_conns = Inr (np_log10 p)
       \<and> (p = 0 \<longrightarrow> calc_failure_rate cls sensor_types computer_types conns actuator_types act_conns = Inr NegInf)"
  using assms by (simp add: calc_failure_rate_def np_log10_def)

theorem zero_probability_gives_neg_inf_witness:
  "calc_failure_prob (GNCCalculator\<lparr>failure_rate := \<lambda>k. [''A'' \<mapsto> 0]\<rparr>) [''A''] [''A''] [(0, 0)] None None = Inr 0
   \<and> calc_failure_rate (GNCCalculator\<lparr>failure_rate := \<lambda>k. [''A'' \<mapsto> 0]\<rparr>) [''A''] [''A''] [(0, 0)] None None = Inr (np_log10 0)
   \<and> calc_failure_rate (GNCCalculator\<lparr>failure_rate := \<lambda>k. [''A'' \<mapsto> 0]\<rparr>) [''A''] [''A''] [(0, 0)] None None = Inr NegInf"
proof -
  have p: "calc_failure_prob (GNCCalculator\<lparr>failure_rate := \<lambda>k. [''A'' \<mapsto> 0]\<rparr>) [''A''] [''A''] [(0, 0)] None None = Inr 0"
    by (simp add: gnc_eval)
  show ?thesis using p zero_probability_gives_neg_inf [OF p] by (simp add: np_log10_def)
qed

subsection \<open>The guard against counting the all-failed scenario twice\<close>

text \<open>
  C1: the scenario in which every source unit has failed is the first one enumerated and
  occurs once. It is retained exactly when the call is the root call (\<open>i_rates = 0\<close>): there
  its term is its occurrence probability, the product of the rates of the connected units,
  and the total is that term plus the terms of the other scenarios; in a call at a later
  stage the total is the sum over the other scenarios only.
\<close>

theorem all_failed_scenario_guard:
  "scenarios n msk = replicate n False # tl (scenarios n msk)
   \<and> replicate n False \<notin> set (tl (scenarios n msk))
   \<and> retained 0 (scenarios n msk) = scenarios n msk
   \<and> retained (Suc t) (scenarios n msk) = tl (scenarios n msk)
   \<and> (replicate n False \<in> set (retained t (scenarios n msk))) = (t = 0)
   \<and> scenario_term fr cm 0 msk (replicate (length (fr ! 0)) False)
       = occurrence_prob (fr ! 0) msk (replicate (length (fr ! 0)) False)
   \<and> occurrence_prob (fr ! 0) msk (replicate (length (fr ! 0)) False) = prod_list (mask_select (fr ! 0) msk)
   \<and> branch_failures fr cm 0 msk
       = occurrence_prob (fr ! 0) msk (replicate (length (fr ! 0)) False)
         + sum_list (map (scenario_term fr cm 0 msk) (tl (scenarios (length (fr ! 0)) msk)))
   \<and> branch_failures fr cm (Suc t) msk
       = sum_list (map (scenario_term fr cm (Suc t) msk) (tl (scenarios (length (fr ! Suc t)) msk)))"
proof -
  have mem: "(replicate n False \<in> set (retained t (scenarios n msk))) = (t = 0)"
  proof (cases t)
    case 0
    have "replicate n False \<in> set (scenarios n msk)"
      using scenarios_first [of n msk] by (metis list.set_intros(1))
    with 0 show ?thesis by (simp add: retained_root)
  next
    case (Suc t')
    then show ?thesis by (simp add: retained_inner all_False_not_in_tl)
  qed
  have root: "branch_failures fr cm 0 msk
       = occurrence_prob (fr ! 0) msk (replicate (length (fr ! 0)) False)
         + sum_list (map (scenario_term fr cm 0 msk) (tl (scenarios (length (fr ! 0)) msk)))"
  proof -
    have "branch_failures fr cm 0 msk
        = sum_list (map (scenario_term fr cm 0 msk)
            (replicate (length (fr ! 0)) False # tl (scenarios (length (fr ! 0)) msk)))"
      using scenarios_first [of "length (fr ! 0)" msk]
      by (simp add: branch_failures_unfold [of fr cm 0 msk] retained_root)
    then show ?thesis
      by (simp add: scenario_term_all_False occurrence_prob_all_False)
  qed
  have inner: "branch_failures fr cm (Suc t) msk
       = sum_list (map (scenario_term fr cm (Suc t) msk) (tl (scenarios (length (fr ! Suc t)) msk)))"
    by (simp add: branch_failures_unfold [of fr cm "Suc t" msk] retained_inner)
  show ?thesis
    using scenarios_first [of n msk] all_False_not_in_tl [of n msk] retained_inner [of t n msk] mem root inner
    by (simp add: retained_root scenario_term_all_False occurrence_prob_all_False)
qed

subsection \<open>No reachable target\<close>

text \<open>
  C4: in any call, a scenario in which no surviving source unit has a nonzero entry in the
  connection matrix of the stage (so no unit of the next stage is reachable) contributes
  exactly its occurrence probability: neither the product of the target rates nor the
  recursive call enters its term. The total of the call is the sum of the terms of the
  retained scenarios.
\<close>

theorem unreachable_downstream_counts_fully:
  assumes "\<forall>i j. i < length ok_sources \<and> i < length (cells (cm ! t)) \<and> j < shape1 (cm ! t) \<and> ok_sources ! i
             \<longrightarrow> cells (cm ! t) ! i ! j = 0"
  shows "scenario_term fr cm t msk ok_sources = occurrence_prob (fr ! t) msk ok_sources
       \<and> branch_failures fr cm t msk
           = sum_list (map (scenario_term fr cm t msk) (retained t (scenarios (length (fr ! t)) msk)))"
proof -
  have "connected_targets (cm ! t) ok_sources = replicate (shape1 (cm ! t)) False"
    using assms by (rule connected_targets_none)
  then have "scenario_term fr cm t msk ok_sources = occurrence_prob (fr ! t) msk ok_sources"
    by (simp add: scenario_term_def mask_select_all_False)
  then show ?thesis using branch_failures_unfold [of fr cm t msk] by simp
qed

theorem unreachable_downstream_counts_fully_witness:
  "cells ([\<lparr>shape0 = 1, shape1 = 1, cells = [[0]]\<rparr>] ! 0) ! 0 ! 0 = 0
   \<and> scenario_term [[0.00015], [0.0001]] [\<lparr>shape0 = 1, shape1 = 1, cells = [[0]]\<rparr>] 0 [True] [True]
       = occurrence_prob [0.00015] [True] [True]
   \<and> occurrence_prob [0.00015] [True] [True] = 0.99985"
proof -
  have h: "\<forall>i j. i < length [True] \<and> i < length (cells ([\<lparr>shape0 = 1, shape1 = 1, cells = [[0]]\<rparr>] ! 0))
           \<and> j < shape1 ([\<lparr>shape0 = 1, shape1 = 1, cells = [[0]]\<rparr>] ! 0) \<and> [True] ! i
           \<longrightarrow> cells ([\<lparr>shape0 = 1, shape1 = 1, cells = [[0]]\<rparr>] ! 0) ! i ! j = (0 :: int)"
    by simp
  have o: "occurrence_prob [0.00015] [True] [True] = 0.99985"
    by (simp add: occurrence_prob_def)
  from unreachable_downstream_counts_fully [OF h, of "[[0.00015], [0.0001]]" "[True]"]
  have "scenario_term [[0.00015], [0.0001]] [\<lparr>shape0 = 1, shape1 = 1, cells = [[0]]\<rparr>] 0 [True] [True]
       = occurrence_prob [0.00015] [True] [True]"
    by simp
  with o show ?thesis by simp
qed

subsection \<open>Probabilities stay in the unit interval\<close>



subsection \<open>Monotonicity in each failure rate\<close>



end
